theory Spec2Isabelle
  imports Main
begin

section \<open>The reinitialization controller of \<open>activate\<close> (extension.ts)\<close>

text \<open>
  The debouncing variant of \<open>activate\<close> keeps three variables,
  \<open>isReInitializing\<close>, \<open>pendingReInit\<close> and \<open>reInitializeTimeout\<close>, and two
  closures over them, \<open>debounceReInitializeBackend\<close> and \<open>reInitializeBackend\<close>.
  The extension host is single threaded: a closure runs without interruption up to its
  next \<open>await\<close>. The model therefore has one transition for every uninterrupted
  segment of code, and the host decides the order of the transitions.

  Beside the three variables the state records what the host knows:
  the handles of the timers that were armed with \<open>setTimeout\<close> and have neither fired
  nor been cleared, the next fresh handle (which is also the number of \<open>setTimeout\<close>
  calls so far), the number of \<open>backend.reInitialize()\<close> promises that have not
  settled yet, the number of \<open>backend.reInitialize()\<close> calls made so far, and the
  lines written by the logger. A timer handle is an object (or a positive number), so
  the test \<open>if (reInitializeTimeout)\<close> succeeds exactly when a handle was stored.
\<close>

datatype error = Rejected string | TypeError string

datatype log_entry = Info string | Error string error

record controller =
  isReInitializing :: bool
  pendingReInit :: bool
  reInitializeTimeout :: "nat option"
  timers :: "nat set"
  nextTimer :: nat
  inFlight :: nat
  runs :: nat
  logged :: "log_entry list"

definition initial :: controller where
  "initial = \<lparr> isReInitializing = False, pendingReInit = False,
     reInitializeTimeout = None, timers = {}, nextTimer = 0, inFlight = 0, runs = 0,
     logged = [] \<rparr>"

text \<open>\<open>setTimeout(reInitializeBackend, 250)\<close> arms a timer and returns its handle;
  \<open>clearTimeout\<close> disarms a timer and does nothing for a handle that is not armed.\<close>

definition setTimeout :: "controller \<Rightarrow> nat \<times> controller" where
  "setTimeout s =
     (nextTimer s, s\<lparr> timers := insert (nextTimer s) (timers s), nextTimer := Suc (nextTimer s) \<rparr>)"

definition clearTimeout :: "nat \<Rightarrow> controller \<Rightarrow> controller" where
  "clearTimeout h s = s\<lparr> timers := timers s - {h} \<rparr>"

definition logInfo :: "string \<Rightarrow> controller \<Rightarrow> controller" where
  "logInfo msg s = s\<lparr> logged := logged s @ [Info msg] \<rparr>"

definition logError :: "string \<Rightarrow> error \<Rightarrow> controller \<Rightarrow> controller" where
  "logError msg err s = s\<lparr> logged := logged s @ [Error msg err] \<rparr>"

definition debounceReInitializeBackend :: "controller \<Rightarrow> controller" where
  "debounceReInitializeBackend s =
     (let s1 = (case reInitializeTimeout s of Some h \<Rightarrow> clearTimeout h s | None \<Rightarrow> s)
      in if isReInitializing s1 then s1\<lparr> pendingReInit := True \<rparr>
         else (let (h, s2) = setTimeout s1 in s2\<lparr> reInitializeTimeout := Some h \<rparr>))"

text \<open>
  \<open>reInitializeBackend\<close> is an async function with one \<open>await\<close>. Its first segment
  runs when it is called: it either returns at the guard or sets the flag, calls
  \<open>backend.reInitialize()\<close> and suspends. Its second segment runs when the promise of
  \<open>backend.reInitialize()\<close> has settled, with \<open>None\<close> for a fulfilled promise and
  \<open>Some err\<close> for a rejected one: the rest of the \<open>try\<close> block or the \<open>catch\<close>
  block, then the \<open>finally\<close> block. The second segment returns the error with which
  the promise of \<open>reInitializeBackend\<close> itself is rejected, if any.
\<close>

datatype suspension = Returned | Awaiting

definition reInitializeBackend_call :: "controller \<Rightarrow> suspension \<times> controller" where
  "reInitializeBackend_call s =
     (if isReInitializing s then (Returned, s\<lparr> pendingReInit := True \<rparr>)
      else (Awaiting, s\<lparr> isReInitializing := True,
                          inFlight := Suc (inFlight s), runs := Suc (runs s) \<rparr>))"

definition reInitializeBackend_finally :: "controller \<Rightarrow> controller" where
  "reInitializeBackend_finally s =
     (let s1 = s\<lparr> isReInitializing := False \<rparr>
      in if pendingReInit s1 then debounceReInitializeBackend (s1\<lparr> pendingReInit := False \<rparr>)
         else s1)"

definition reInitializeBackend_resume :: "error option \<Rightarrow> controller \<Rightarrow> error option \<times> controller" where
  "reInitializeBackend_resume outcome s =
     (let (thrown, s1) =
            (case outcome of
               None \<Rightarrow> (None, logInfo ''Extension active!'' s)
             | Some err \<Rightarrow> (None, logError ''Error initializing:'' err s))
      in (thrown, reInitializeBackend_finally s1))"

text \<open>
  The events of the host: a trigger source calls \<open>debounceReInitializeBackend\<close>;
  \<open>reInitializeBackend\<close> is called directly; an armed timer fires and calls
  \<open>reInitializeBackend\<close>; the promise of a \<open>backend.reInitialize()\<close> in flight
  settles. A timer can fire only while it is armed, and a promise can settle only while
  one is in flight: \<open>step\<close> is \<open>None\<close> for an event that cannot happen.
\<close>

datatype event = Trigger | Call | TimerFires nat | RunSettles "error option"

fun step :: "controller \<Rightarrow> event \<Rightarrow> controller option" where
  "step s Trigger = Some (debounceReInitializeBackend s)"
| "step s Call = Some (snd (reInitializeBackend_call s))"
| "step s (TimerFires h) =
     (if h \<in> timers s then Some (snd (reInitializeBackend_call (s\<lparr> timers := timers s - {h} \<rparr>)))
      else None)"
| "step s (RunSettles outcome) =
     (if inFlight s = 0 then None
      else Some (snd (reInitializeBackend_resume outcome (s\<lparr> inFlight := inFlight s - 1 \<rparr>))))"

fun exec :: "controller \<Rightarrow> event list \<Rightarrow> controller option" where
  "exec s [] = Some s"
| "exec s (e # es) = (case step s e of None \<Rightarrow> None | Some s' \<Rightarrow> exec s' es)"

section \<open>The language-server session of \<open>activateLsp\<close> (lsp.ts)\<close>

text \<open>
  \<open>activateLsp\<close> keeps one variable, \<open>client\<close>, and returns the two async
  methods \<open>reInitialize\<close> and \<open>dispose\<close>. A \<open>LanguageClient\<close> object is
  identified by the number of clients constructed before it. Beside the variable the
  state records which clients are started (their \<open>start()\<close> was fulfilled and they
  were not stopped since), which were disposed, and the calls made to the collaborators,
  in order.

  The collaborators are not part of the file: the language client, the workspace,
  configuration discovery, the combined configuration and the resolution of the
  executable. Their answers are parameters of the model, one record of answers for each
  call of a method. A promise of a collaborator may be rejected, so each awaited answer
  is an error or a value. The calls that are not awaited (the constructors,
  \<open>client.dispose()\<close>, \<open>resourceStores.dispose()\<close>, \<open>getCombinedDprintConfig\<close>
  and the logger) are taken to return, and the workspace folders are taken not to change
  during one call of a method.
\<close>

record workspaceFolder =
  uri :: string

record dprintConfig =
  pathInfo :: "string option"
  verbose :: bool

record resolveOptions =
  optPathInfo :: "string option"
  optCwd :: "string option"
  optVerbose :: bool

record env =
  stopOutcome :: "nat \<Rightarrow> error option"
  discoverWorkspaceConfigFiles :: "nat \<Rightarrow> error + string list"
  workspaceFolders :: "workspaceFolder list option"
  ancestorDirsContainConfigFile :: "string \<Rightarrow> error + bool"
  getCombinedDprintConfig :: "workspaceFolder list \<Rightarrow> dprintConfig"
  resolveCmdPath :: "resolveOptions \<Rightarrow> error + string"
  startOutcome :: "nat \<Rightarrow> error option"

datatype effect =
    ClientStop nat nat
  | ClientDispose nat
  | ClientNew nat string "string list"
  | ClientStart nat
  | DiscoverCall nat
  | AncestorCall string
  | ResolveCall resolveOptions
  | Logged log_entry
  | ResourceStoresDispose

record session =
  client :: "nat option"
  constructed :: nat
  started :: "nat set"
  disposed :: "nat set"
  trace :: "effect list"

definition session_initial :: session where
  "session_initial = \<lparr> client = None, constructed = 0, started = {}, disposed = {}, trace = [] \<rparr>"

definition emit :: "effect \<Rightarrow> session \<Rightarrow> session" where
  "emit x s = s\<lparr> trace := trace s @ [x] \<rparr>"

text \<open>
  The block \<open>if (client) { await client.stop(2_000); client.dispose(); client = undefined; }\<close>
  opens both methods. When \<open>stop\<close> is rejected the method is left at once, with the
  variable unchanged.
\<close>

definition releaseClient :: "env \<Rightarrow> session \<Rightarrow> error option \<times> session" where
  "releaseClient e s =
     (case client s of
        None \<Rightarrow> (None, s)
      | Some h \<Rightarrow>
          (let s1 = emit (ClientStop h 2000) s
           in case stopOutcome e h of
                Some err \<Rightarrow> (Some err, s1)
              | None \<Rightarrow>
                  (let s2 = s1\<lparr> started := started s1 - {h} \<rparr>;
                       s3 = (emit (ClientDispose h) s2)\<lparr> disposed := insert h (disposed s2) \<rparr>
                   in (None, s3\<lparr> client := None \<rparr>))))"

text \<open>\<open>vscode.workspace.workspaceFolders?.[0]\<close>: undefined without folders.\<close>

definition firstWorkspaceFolder :: "env \<Rightarrow> workspaceFolder option" where
  "firstWorkspaceFolder e =
     (case workspaceFolders e of None \<Rightarrow> None | Some [] \<Rightarrow> None | Some (f # _) \<Rightarrow> Some f)"

definition workspaceHasConfigFile :: "env \<Rightarrow> session \<Rightarrow> (error + bool) \<times> session" where
  "workspaceHasConfigFile e s =
     (let s1 = emit (DiscoverCall 1) s
      in case discoverWorkspaceConfigFiles e 1 of
           Inl err \<Rightarrow> (Inl err, s1)
         | Inr configFiles \<Rightarrow>
             if length configFiles > 0 then (Inr True, s1)
             else (case firstWorkspaceFolder e of
                     None \<Rightarrow> (Inr False, s1)
                   | Some workspaceFolder \<Rightarrow>
                       (ancestorDirsContainConfigFile e (uri workspaceFolder),
                        emit (AncestorCall (uri workspaceFolder)) s1)))"

text \<open>
  \<open>vscode.workspace.workspaceFolders?.[0].uri\<close>: the optional chain stops only at an
  undefined list; on an empty list the element is undefined and reading \<open>uri\<close> throws.
\<close>

definition rootUriOf :: "env \<Rightarrow> error + string option" where
  "rootUriOf e =
     (case workspaceFolders e of
        None \<Rightarrow> Inr None
      | Some [] \<Rightarrow> Inl (TypeError ''Cannot read properties of undefined'')
      | Some (f # _) \<Rightarrow> Inr (Some (uri f)))"

definition startClient :: "env \<Rightarrow> string \<Rightarrow> string list \<Rightarrow> session \<Rightarrow> error option \<times> session" where
  "startClient e cmdPath args s =
     (let h = constructed s;
          s1 = (emit (ClientNew h cmdPath args) s)\<lparr> constructed := Suc h, client := Some h \<rparr>;
          s2 = emit (ClientStart h) s1
      in case startOutcome e h of
           Some err \<Rightarrow> (Some err, s2)
         | None \<Rightarrow>
             (None, emit (Logged (Info ''Started experimental language server.''))
                      (s2\<lparr> started := insert h (started s2) \<rparr>)))"

definition reInitialize :: "env \<Rightarrow> session \<Rightarrow> error option \<times> session" where
  "reInitialize e s =
     (case releaseClient e s of
        (Some err, s1) \<Rightarrow> (Some err, s1)
      | (None, s1) \<Rightarrow>
          (case workspaceHasConfigFile e s1 of
             (Inl err, s2) \<Rightarrow> (Some err, s2)
           | (Inr False, s2) \<Rightarrow> (None, emit (Logged (Info ''Configuration file not found.'')) s2)
           | (Inr True, s2) \<Rightarrow>
               (case rootUriOf e of
                  Inl err \<Rightarrow> (Some err, s2)
                | Inr rootUri \<Rightarrow>
                    (let config = getCombinedDprintConfig e
                                    (case workspaceFolders e of None \<Rightarrow> [] | Some fs \<Rightarrow> fs);
                         opts = \<lparr> optPathInfo = pathInfo config, optCwd = rootUri,
                                  optVerbose = verbose config \<rparr>;
                         s3 = emit (ResolveCall opts) s2
                     in case resolveCmdPath e opts of
                          Inl err \<Rightarrow> (Some err, s3)
                        | Inr cmdPath \<Rightarrow>
                            startClient e cmdPath
                              (if verbose config then [''lsp'', ''--verbose''] else [''lsp'']) s3))))"

definition dispose :: "env \<Rightarrow> session \<Rightarrow> error option \<times> session" where
  "dispose e s =
     (case releaseClient e s of
        (Some err, s1) \<Rightarrow> (Some err, s1)
      | (None, s1) \<Rightarrow> (None, emit ResourceStoresDispose s1))"

text \<open>
  The states of the session, read off the variable: it is stopped when \<open>client\<close> is
  undefined and running when \<open>client\<close> holds a started client. The live handles are
  the clients constructed and not disposed; \<open>effects_since\<close> are the calls a method
  made, and \<open>logs_of\<close> the lines it wrote to the log among them.
\<close>

definition session_stopped :: "session \<Rightarrow> bool" where
  "session_stopped s = (client s = None)"

definition session_running :: "session \<Rightarrow> bool" where
  "session_running s = (case client s of None \<Rightarrow> False | Some h \<Rightarrow> h \<in> started s)"

definition live :: "session \<Rightarrow> nat set" where
  "live s = {..<constructed s} - disposed s"

definition effects_since :: "session \<Rightarrow> session \<Rightarrow> effect list" where
  "effects_since s s' = drop (length (trace s)) (trace s')"

definition logs_of :: "effect list \<Rightarrow> log_entry list" where
  "logs_of xs = concat (map (\<lambda>x. case x of Logged m \<Rightarrow> [m] | _ \<Rightarrow> []) xs)"

datatype request = ReInitialize env | Dispose env

fun perform :: "session \<Rightarrow> request \<Rightarrow> session" where
  "perform s (ReInitialize e) = snd (reInitialize e s)"
| "perform s (Dispose e) = snd (dispose e s)"

definition no_leak :: "session \<Rightarrow> bool" where
  "no_leak s = (live s \<subseteq> set_option (client s))"

definition session_inv :: "session \<Rightarrow> bool" where
  "session_inv s =
     (no_leak s \<and> (\<forall>h \<in> started s \<union> disposed s \<union> set_option (client s). h < constructed s))"

text \<open>
  Answers of the collaborators for a workspace with one folder, a configuration file in
  it and an executable that resolves and starts; the examples below vary them.
\<close>

definition sample_env :: env where
  "sample_env = \<lparr> stopOutcome = (\<lambda>_. None),
     discoverWorkspaceConfigFiles = (\<lambda>_. Inr [''/w/dprint.json'']),
     workspaceFolders = Some [\<lparr> uri = ''/w'' \<rparr>],
     ancestorDirsContainConfigFile = (\<lambda>_. Inr False),
     getCombinedDprintConfig = (\<lambda>_. \<lparr> pathInfo = None, verbose = False \<rparr>),
     resolveCmdPath = (\<lambda>_. Inr ''dprint''),
     startOutcome = (\<lambda>_. None) \<rparr>"

section \<open>Invariants of the controller\<close>

definition is_request :: "event \<Rightarrow> bool" where
  "is_request e = (case e of RunSettles _ \<Rightarrow> False | _ \<Rightarrow> True)"

text \<open>The facts that hold in every state the controller can reach.\<close>

definition controller_inv :: "controller \<Rightarrow> bool" where
  "controller_inv s =
     (timers s \<subseteq> set_option (reInitializeTimeout s)
      \<and> (\<forall>h \<in> set_option (reInitializeTimeout s). h < nextTimer s)
      \<and> inFlight s = (if isReInitializing s then 1 else 0)
      \<and> (pendingReInit s \<longrightarrow> isReInitializing s))"

lemma controller_inv_initial: "controller_inv initial"
  by (simp add: controller_inv_def initial_def)

lemma controller_inv_debounce:
  "controller_inv s \<Longrightarrow> controller_inv (debounceReInitializeBackend s)"
  by (auto simp: controller_inv_def debounceReInitializeBackend_def clearTimeout_def
      setTimeout_def Let_def split: option.splits)

lemma controller_inv_call:
  "controller_inv s \<Longrightarrow> controller_inv (snd (reInitializeBackend_call s))"
  by (auto simp: controller_inv_def reInitializeBackend_call_def)

lemma controller_inv_disarm:
  "controller_inv s \<Longrightarrow> controller_inv (s\<lparr> timers := timers s - {h} \<rparr>)"
  by (auto simp: controller_inv_def)

lemma controller_inv_resume:
  assumes "controller_inv s" and "inFlight s \<noteq> 0"
  shows "controller_inv (snd (reInitializeBackend_resume outcome (s\<lparr> inFlight := inFlight s - 1 \<rparr>)))"
  using assms
  by (auto simp: controller_inv_def reInitializeBackend_resume_def reInitializeBackend_finally_def
      debounceReInitializeBackend_def clearTimeout_def setTimeout_def logInfo_def logError_def
      Let_def split: option.splits if_splits)

lemma controller_inv_step:
  "controller_inv s \<Longrightarrow> step s e = Some s' \<Longrightarrow> controller_inv s'"
proof (cases e)
  case Trigger
  assume "controller_inv s" "step s e = Some s'"
  with Trigger show ?thesis using controller_inv_debounce by auto
next
  case Call
  assume "controller_inv s" "step s e = Some s'"
  with Call show ?thesis using controller_inv_call by auto
next
  case (TimerFires h)
  assume "controller_inv s" "step s e = Some s'"
  with TimerFires show ?thesis
    using controller_inv_call [OF controller_inv_disarm] by (auto split: if_splits)
next
  case (RunSettles outcome)
  assume "controller_inv s" "step s e = Some s'"
  with RunSettles show ?thesis
    using controller_inv_resume by (auto split: if_splits)
qed

lemma controller_inv_exec:
  "controller_inv s \<Longrightarrow> exec s es = Some s' \<Longrightarrow> controller_inv s'"
proof (induction es arbitrary: s)
  case Nil
  then show ?case by simp
next
  case (Cons e es)
  then show ?case
    by (auto split: option.splits dest: controller_inv_step)
qed

lemma controller_inv_reachable: "exec initial es = Some s \<Longrightarrow> controller_inv s"
  using controller_inv_exec [OF controller_inv_initial] .

lemma request_while_running:
  assumes "isReInitializing s" and "is_request e" and "step s e = Some s'"
  shows "isReInitializing s' \<and> pendingReInit s' \<and> nextTimer s' = nextTimer s
    \<and> runs s' = runs s \<and> inFlight s' = inFlight s \<and> logged s' = logged s
    \<and> reInitializeTimeout s' = reInitializeTimeout s"
  using assms
  by (cases e)
    (auto simp: is_request_def debounceReInitializeBackend_def clearTimeout_def
      reInitializeBackend_call_def Let_def split: option.splits if_splits)

lemma requests_while_running:
  assumes "isReInitializing s" and "\<forall>e \<in> set es. is_request e" and "exec s es = Some s'"
  shows "isReInitializing s' \<and> (es \<noteq> [] \<longrightarrow> pendingReInit s') \<and> nextTimer s' = nextTimer s
    \<and> runs s' = runs s \<and> inFlight s' = inFlight s \<and> logged s' = logged s
    \<and> reInitializeTimeout s' = reInitializeTimeout s"
  using assms
proof (induction es arbitrary: s)
  case Nil
  then show ?case by simp
next
  case (Cons e es)
  from Cons.prems obtain t where t: "step s e = Some t" and rest: "exec t es = Some s'"
    by (auto split: option.splits)
  from Cons.prems have e: "is_request e" and es: "\<forall>x \<in> set es. is_request x"
    by simp_all
  note one = request_while_running [OF Cons.prems(1) e t]
  from one have run_t: "isReInitializing t" by simp
  note many = Cons.IH [OF run_t es rest]
  show ?case
  proof (cases es)
    case Nil
    with rest one show ?thesis by simp
  next
    case (Cons a list)
    with many one show ?thesis by simp
  qed
qed

lemma settle_pending:
  assumes "controller_inv s" and "isReInitializing s" and "pendingReInit s"
    and "step s (RunSettles outcome) = Some s'"
  shows "\<not> isReInitializing s' \<and> \<not> pendingReInit s' \<and> nextTimer s' = Suc (nextTimer s)
    \<and> timers s' = {nextTimer s} \<and> reInitializeTimeout s' = Some (nextTimer s)
    \<and> runs s' = runs s \<and> inFlight s' = 0"
  using assms
  by (auto simp: controller_inv_def reInitializeBackend_resume_def reInitializeBackend_finally_def
      debounceReInitializeBackend_def clearTimeout_def setTimeout_def logInfo_def logError_def
      Let_def split: option.splits if_splits)

lemma settle_not_pending:
  assumes "controller_inv s" and "isReInitializing s" and "\<not> pendingReInit s"
  shows "\<exists>s'. step s (RunSettles outcome) = Some s' \<and> \<not> isReInitializing s'
    \<and> \<not> pendingReInit s' \<and> nextTimer s' = nextTimer s
    \<and> timers s' = timers s \<and> reInitializeTimeout s' = reInitializeTimeout s
    \<and> runs s' = runs s \<and> inFlight s' = 0"
  using assms
  by (auto simp: controller_inv_def reInitializeBackend_resume_def reInitializeBackend_finally_def
      logInfo_def logError_def Let_def split: option.splits if_splits)

lemma fire_when_idle:
  assumes "controller_inv s" and "\<not> isReInitializing s" and "timers s = {h}"
  shows "\<exists>s'. step s (TimerFires h) = Some s' \<and> isReInitializing s' \<and> \<not> pendingReInit s'
    \<and> timers s' = {} \<and> runs s' = Suc (runs s) \<and> inFlight s' = 1
    \<and> nextTimer s' = nextTimer s \<and> reInitializeTimeout s' = reInitializeTimeout s"
  using assms
  by (auto simp: controller_inv_def reInitializeBackend_call_def)


lemma settle_enabled:
  assumes "controller_inv s" and "isReInitializing s"
  shows "\<exists>s'. step s (RunSettles outcome) = Some s'"
  using assms by (simp add: controller_inv_def)

section \<open>Coalescing of requests that arrive during a run\<close>

text \<open>
  Claim C1. Let a run be in flight in a state the controller can reach, and let one or
  more requests arrive before it completes: calls of \<open>debounceReInitializeBackend\<close>,
  direct calls of \<open>reInitializeBackend\<close>, or a timer that fires. None of them starts
  a run or arms a timer. When the run completes, with either outcome, the pending flag
  is cleared and \<open>setTimeout\<close> is called exactly once, so that exactly one timer is
  armed; when it fires exactly one more run starts, and when that run completes nothing
  is armed or pending any more. The number of requests does not matter.
\<close>

theorem mid_run_coalescing:
  assumes reach: "exec initial pre = Some s"
    and busy: "isReInitializing s"
    and some: "es \<noteq> []"
    and reqs: "\<forall>e \<in> set es. is_request e"
    and mid: "exec s es = Some s1"
  shows "\<exists>s2. step s1 (RunSettles outcome) = Some s2
      \<and> runs s1 = runs s \<and> nextTimer s1 = nextTimer s
      \<and> \<not> isReInitializing s2 \<and> \<not> pendingReInit s2
      \<and> nextTimer s2 = Suc (nextTimer s) \<and> timers s2 = {nextTimer s}
      \<and> reInitializeTimeout s2 = Some (nextTimer s)
      \<and> runs s2 = runs s \<and> inFlight s2 = 0
      \<and> (\<exists>s3. step s2 (TimerFires (nextTimer s)) = Some s3
            \<and> runs s3 = Suc (runs s) \<and> inFlight s3 = 1 \<and> timers s3 = {}
            \<and> (\<forall>outcome'. \<exists>s4. step s3 (RunSettles outcome') = Some s4
                  \<and> runs s4 = Suc (runs s) \<and> inFlight s4 = 0 \<and> timers s4 = {}
                  \<and> \<not> isReInitializing s4 \<and> \<not> pendingReInit s4))"
proof -
  have inv_s: "controller_inv s"
    using reach by (rule controller_inv_reachable)
  have inv_s1: "controller_inv s1"
    using inv_s mid by (rule controller_inv_exec)
  note during = requests_while_running [OF busy reqs mid]
  from during some have busy1: "isReInitializing s1" and pend1: "pendingReInit s1"
    by simp_all
  from settle_enabled [OF inv_s1 busy1] obtain s2
    where s2: "step s1 (RunSettles outcome) = Some s2" by blast
  note after = settle_pending [OF inv_s1 busy1 pend1 s2]
  have inv_s2: "controller_inv s2"
    using inv_s1 s2 by (rule controller_inv_step)
  from after have idle2: "\<not> isReInitializing s2" and armed2: "timers s2 = {nextTimer s1}"
    by simp_all
  from fire_when_idle [OF inv_s2 idle2 armed2] obtain s3
    where s3: "step s2 (TimerFires (nextTimer s1)) = Some s3"
      and props3: "isReInitializing s3" "\<not> pendingReInit s3" "timers s3 = {}"
        "runs s3 = Suc (runs s2)" "inFlight s3 = 1"
    by blast
  have inv_s3: "controller_inv s3"
    using inv_s2 s3 by (rule controller_inv_step)
  have last: "\<exists>s4. step s3 (RunSettles outcome') = Some s4
      \<and> runs s4 = Suc (runs s) \<and> inFlight s4 = 0 \<and> timers s4 = {}
      \<and> \<not> isReInitializing s4 \<and> \<not> pendingReInit s4" for outcome'
    using settle_not_pending [OF inv_s3 props3(1) props3(2), of outcome'] props3 after during
    by auto
  from s2 s3 after during props3 last show ?thesis
    by auto
qed

theorem mid_run_coalescing_witness:
  "exec initial [Trigger, TimerFires 0] =
     Some \<lparr> isReInitializing = True, pendingReInit = False, reInitializeTimeout = Some 0,
            timers = {}, nextTimer = 1, inFlight = 1, runs = 1, logged = [] \<rparr>
   \<and> is_request Trigger \<and> is_request Call \<and> is_request (TimerFires 7)
   \<and> exec \<lparr> isReInitializing = True, pendingReInit = False, reInitializeTimeout = Some 0,
            timers = {}, nextTimer = 1, inFlight = 1, runs = 1, logged = [] \<rparr>
        [Trigger, Call, Trigger] =
     Some \<lparr> isReInitializing = True, pendingReInit = True, reInitializeTimeout = Some 0,
            timers = {}, nextTimer = 1, inFlight = 1, runs = 1, logged = [] \<rparr>
   \<and> (\<exists>s2. step \<lparr> isReInitializing = True, pendingReInit = True, reInitializeTimeout = Some 0,
            timers = {}, nextTimer = 1, inFlight = 1, runs = 1, logged = [] \<rparr>
          (RunSettles (Some (Rejected ''spawn failed''))) = Some s2
      \<and> \<not> isReInitializing s2 \<and> \<not> pendingReInit s2
      \<and> nextTimer s2 = 2 \<and> timers s2 = {1} \<and> runs s2 = 1
      \<and> (\<exists>s3. step s2 (TimerFires 1) = Some s3 \<and> runs s3 = 2 \<and> timers s3 = {}))"
proof -
  let ?s = "\<lparr> isReInitializing = True, pendingReInit = False, reInitializeTimeout = Some 0,
            timers = {}, nextTimer = 1, inFlight = 1, runs = 1, logged = [] \<rparr>"
  let ?s1 = "\<lparr> isReInitializing = True, pendingReInit = True, reInitializeTimeout = Some 0,
            timers = {}, nextTimer = 1, inFlight = 1, runs = 1, logged = [] \<rparr>"
  have reach: "exec initial [Trigger, TimerFires 0] = Some ?s"
    by (simp add: initial_def debounceReInitializeBackend_def setTimeout_def
        reInitializeBackend_call_def)
  have busy: "isReInitializing ?s" by simp
  have some: "[Trigger, Call, Trigger] \<noteq> []" by simp
  have r: "is_request Trigger" "is_request Call" "is_request (TimerFires 7)"
    by (simp_all add: is_request_def)
  then have reqs: "\<forall>e \<in> set [Trigger, Call, Trigger]. is_request e" by simp
  have mid: "exec ?s [Trigger, Call, Trigger] = Some ?s1"
    by (simp add: debounceReInitializeBackend_def clearTimeout_def reInitializeBackend_call_def)
  from mid_run_coalescing [OF reach busy some reqs mid, of "Some (Rejected ''spawn failed'')"]
  obtain s2 where "step ?s1 (RunSettles (Some (Rejected ''spawn failed''))) = Some s2
      \<and> \<not> isReInitializing s2 \<and> \<not> pendingReInit s2
      \<and> nextTimer s2 = 2 \<and> timers s2 = {1} \<and> runs s2 = 1
      \<and> (\<exists>s3. step s2 (TimerFires 1) = Some s3 \<and> runs s3 = 2 \<and> timers s3 = {})"
    by (auto simp: numeral_2_eq_2)
  then have "\<exists>s2. step ?s1 (RunSettles (Some (Rejected ''spawn failed''))) = Some s2
      \<and> \<not> isReInitializing s2 \<and> \<not> pendingReInit s2
      \<and> nextTimer s2 = 2 \<and> timers s2 = {1} \<and> runs s2 = 1
      \<and> (\<exists>s3. step s2 (TimerFires 1) = Some s3 \<and> runs s3 = 2 \<and> timers s3 = {})"
    by blast
  with reach r mid show ?thesis by blast
qed

section \<open>No two runs overlap\<close>

text \<open>
  Claim C2. In every state the controller can reach, by any interleaving of requests,
  timers and completions, at most one \<open>backend.reInitialize()\<close> is in flight, and
  \<open>isReInitializing\<close> is set exactly while one is. While it is set, a call of
  \<open>reInitializeBackend\<close> returns at the guard, and no request starts a run or clears
  the flag.
\<close>

theorem no_overlap:
  assumes reach: "exec initial es = Some s"
  shows "inFlight s \<le> 1 \<and> (isReInitializing s \<longleftrightarrow> inFlight s = 1)
    \<and> (isReInitializing s \<longrightarrow>
          fst (reInitializeBackend_call s) = Returned
          \<and> runs (snd (reInitializeBackend_call s)) = runs s
          \<and> inFlight (snd (reInitializeBackend_call s)) = 1
          \<and> (\<forall>e s'. is_request e \<and> step s e = Some s' \<longrightarrow>
                isReInitializing s' \<and> runs s' = runs s \<and> inFlight s' = 1))"
proof -
  have inv: "controller_inv s"
    using reach by (rule controller_inv_reachable)
  then have count: "inFlight s \<le> 1 \<and> (isReInitializing s \<longleftrightarrow> inFlight s = 1)"
    by (simp add: controller_inv_def)
  have guard: "fst (reInitializeBackend_call s) = Returned
      \<and> runs (snd (reInitializeBackend_call s)) = runs s
      \<and> inFlight (snd (reInitializeBackend_call s)) = 1" if "isReInitializing s"
    using that count by (simp add: reInitializeBackend_call_def)
  have stay: "isReInitializing s' \<and> runs s' = runs s \<and> inFlight s' = 1"
    if "isReInitializing s" and "is_request e" and "step s e = Some s'" for e s'
    using request_while_running [OF that] that(1) count by simp
  from count guard stay show ?thesis by blast
qed

theorem no_overlap_witness:
  "exec initial [Trigger, TimerFires 0, Call, Trigger, TimerFires 0] = None
   \<and> exec initial [Trigger, TimerFires 0, Call, Trigger] =
     Some \<lparr> isReInitializing = True, pendingReInit = True, reInitializeTimeout = Some 0,
            timers = {}, nextTimer = 1, inFlight = 1, runs = 1, logged = [] \<rparr>
   \<and> inFlight \<lparr> isReInitializing = True, pendingReInit = True, reInitializeTimeout = Some 0,
                timers = {}, nextTimer = 1, inFlight = 1, runs = 1, logged = [] \<rparr> \<le> 1
   \<and> fst (reInitializeBackend_call
        \<lparr> isReInitializing = True, pendingReInit = True, reInitializeTimeout = Some 0,
          timers = {}, nextTimer = 1, inFlight = 1, runs = 1, logged = [] \<rparr>) = Returned"
proof -
  let ?s = "\<lparr> isReInitializing = True, pendingReInit = True, reInitializeTimeout = Some 0,
            timers = {}, nextTimer = 1, inFlight = 1, runs = 1, logged = [] \<rparr>"
  have fired: "exec initial [Trigger, TimerFires 0, Call, Trigger, TimerFires 0] = None"
    by (simp add: initial_def debounceReInitializeBackend_def setTimeout_def clearTimeout_def
        reInitializeBackend_call_def)
  have reach: "exec initial [Trigger, TimerFires 0, Call, Trigger] = Some ?s"
    by (simp add: initial_def debounceReInitializeBackend_def setTimeout_def clearTimeout_def
        reInitializeBackend_call_def)
  from no_overlap [OF reach] have "inFlight ?s \<le> 1"
    and "fst (reInitializeBackend_call ?s) = Returned"
    by simp_all
  with fired reach show ?thesis by blast
qed

section \<open>Coalescing of requests that arrive before the timer fires\<close>

lemma debounce_when_idle:
  assumes "controller_inv s" and "\<not> isReInitializing s"
  shows "debounceReInitializeBackend s =
    s\<lparr> timers := {nextTimer s}, nextTimer := Suc (nextTimer s),
       reInitializeTimeout := Some (nextTimer s) \<rparr>"
proof -
  have gone: "insert x (timers s - {h}) = {x}" if "reInitializeTimeout s = Some h" for h x
    using assms(1) that by (auto simp: controller_inv_def)
  have none: "timers s = {}" if "reInitializeTimeout s = None"
    using assms(1) that by (simp add: controller_inv_def)
  show ?thesis
    using assms(2) gone none
    by (cases "reInitializeTimeout s")
      (simp_all add: debounceReInitializeBackend_def clearTimeout_def setTimeout_def)
qed

lemma triggers_when_idle:
  assumes "controller_inv s" and "\<not> isReInitializing s"
  shows "\<exists>s1. exec s (replicate (Suc n) Trigger) = Some s1
    \<and> timers s1 = {nextTimer s + n} \<and> nextTimer s1 = Suc (nextTimer s + n)
    \<and> runs s1 = runs s \<and> inFlight s1 = inFlight s
    \<and> \<not> isReInitializing s1 \<and> controller_inv s1"
  using assms
proof (induction n arbitrary: s)
  case 0
  have "controller_inv (debounceReInitializeBackend s)"
    using "0.prems"(1) by (rule controller_inv_debounce)
  then show ?case
    using debounce_when_idle [OF "0.prems"] "0.prems" by simp
next
  case (Suc n)
  let ?t = "debounceReInitializeBackend s"
  have t: "?t = s\<lparr> timers := {nextTimer s}, nextTimer := Suc (nextTimer s),
       reInitializeTimeout := Some (nextTimer s) \<rparr>"
    using Suc.prems by (rule debounce_when_idle)
  have inv_t: "controller_inv ?t"
    using Suc.prems(1) by (rule controller_inv_debounce)
  have idle_t: "\<not> isReInitializing ?t"
    using t Suc.prems(2) by simp
  from Suc.IH [OF inv_t idle_t] obtain s1
    where "exec ?t (replicate (Suc n) Trigger) = Some s1"
      and "timers s1 = {nextTimer ?t + n}" and "nextTimer s1 = Suc (nextTimer ?t + n)"
      and "runs s1 = runs ?t" and "inFlight s1 = inFlight ?t"
      and "\<not> isReInitializing s1" and "controller_inv s1"
    by blast
  moreover have "exec s (replicate (Suc (Suc n)) Trigger) = exec ?t (replicate (Suc n) Trigger)"
    by simp
  moreover have "nextTimer ?t = Suc (nextTimer s)" "runs ?t = runs s" "inFlight ?t = inFlight s"
    using t by simp_all
  ultimately show ?case by simp
qed

lemma one_timer_live:
  assumes "controller_inv s"
  shows "finite (timers s) \<and> card (timers s) \<le> 1"
proof -
  from assms have sub: "timers s \<subseteq> set_option (reInitializeTimeout s)"
    by (simp add: controller_inv_def)
  have fin: "finite (set_option (reInitializeTimeout s))"
    by (cases "reInitializeTimeout s") simp_all
  have "card (set_option (reInitializeTimeout s)) \<le> 1"
    by (cases "reInitializeTimeout s") simp_all
  with card_mono [OF fin sub] finite_subset [OF sub fin] show ?thesis by simp
qed

lemma arming_cancels:
  assumes "controller_inv s" and "reInitializeTimeout s = Some h"
  shows "h \<notin> timers (debounceReInitializeBackend s)"
  using assms
  by (auto simp: controller_inv_def debounceReInitializeBackend_def clearTimeout_def
      setTimeout_def Let_def)

text \<open>
  Claim C3. In every state the controller can reach at most one timer is armed, and a
  call of \<open>debounceReInitializeBackend\<close> disarms the timer whose handle is stored. When
  no run is in flight and \<open>n \<ge> 1\<close> triggers arrive before a timer fires, only the timer
  of the last trigger is armed afterwards and no run has started; no other timer can
  fire; when that timer fires exactly one run starts, and when the run completes nothing
  is armed, pending or in flight.
\<close>

theorem debounce_coalescing:
  assumes reach: "exec initial pre = Some s"
  shows "finite (timers s) \<and> card (timers s) \<le> 1
    \<and> (\<forall>h. reInitializeTimeout s = Some h \<longrightarrow> h \<notin> timers (debounceReInitializeBackend s))
    \<and> (\<not> isReInitializing s \<and> 0 < n \<longrightarrow>
         (\<exists>s1. exec s (replicate n Trigger) = Some s1
            \<and> runs s1 = runs s \<and> inFlight s1 = 0
            \<and> timers s1 = {nextTimer s + n - 1}
            \<and> (\<forall>h. h \<noteq> nextTimer s + n - 1 \<longrightarrow> step s1 (TimerFires h) = None)
            \<and> (\<exists>s2. step s1 (TimerFires (nextTimer s + n - 1)) = Some s2
                  \<and> runs s2 = Suc (runs s) \<and> inFlight s2 = 1 \<and> timers s2 = {}
                  \<and> (\<forall>outcome. \<exists>s3. step s2 (RunSettles outcome) = Some s3
                        \<and> runs s3 = Suc (runs s) \<and> inFlight s3 = 0 \<and> timers s3 = {}
                        \<and> \<not> isReInitializing s3 \<and> \<not> pendingReInit s3))))"
proof -
  have inv: "controller_inv s"
    using reach by (rule controller_inv_reachable)
  note live = one_timer_live [OF inv]
  have cancel: "h \<notin> timers (debounceReInitializeBackend s)" if "reInitializeTimeout s = Some h" for h
    using inv that by (rule arming_cancels)
  have burst: "\<exists>s1. exec s (replicate n Trigger) = Some s1
            \<and> runs s1 = runs s \<and> inFlight s1 = 0
            \<and> timers s1 = {nextTimer s + n - 1}
            \<and> (\<forall>h. h \<noteq> nextTimer s + n - 1 \<longrightarrow> step s1 (TimerFires h) = None)
            \<and> (\<exists>s2. step s1 (TimerFires (nextTimer s + n - 1)) = Some s2
                  \<and> runs s2 = Suc (runs s) \<and> inFlight s2 = 1 \<and> timers s2 = {}
                  \<and> (\<forall>outcome. \<exists>s3. step s2 (RunSettles outcome) = Some s3
                        \<and> runs s3 = Suc (runs s) \<and> inFlight s3 = 0 \<and> timers s3 = {}
                        \<and> \<not> isReInitializing s3 \<and> \<not> pendingReInit s3))"
    if idle: "\<not> isReInitializing s" and pos: "0 < n"
  proof -
    from pos obtain m where n: "n = Suc m" by (cases n) auto
    from inv idle have none: "inFlight s = 0" by (simp add: controller_inv_def)
    from triggers_when_idle [OF inv idle, of m] obtain s1
      where s1: "exec s (replicate (Suc m) Trigger) = Some s1"
        and t1: "timers s1 = {nextTimer s + m}" and r1: "runs s1 = runs s"
        and f1: "inFlight s1 = inFlight s" and idle1: "\<not> isReInitializing s1"
        and inv1: "controller_inv s1"
      by blast
    have others: "step s1 (TimerFires h) = None" if "h \<noteq> nextTimer s + m" for h
      using that t1 by simp
    from fire_when_idle [OF inv1 idle1 t1] obtain s2
      where s2: "step s1 (TimerFires (nextTimer s + m)) = Some s2"
        and p2: "isReInitializing s2" "\<not> pendingReInit s2" "timers s2 = {}"
          "runs s2 = Suc (runs s1)" "inFlight s2 = 1"
      by blast
    have inv2: "controller_inv s2"
      using inv1 s2 by (rule controller_inv_step)
    have fin: "\<exists>s3. step s2 (RunSettles outcome) = Some s3
          \<and> runs s3 = Suc (runs s) \<and> inFlight s3 = 0 \<and> timers s3 = {}
          \<and> \<not> isReInitializing s3 \<and> \<not> pendingReInit s3" for outcome
      using settle_not_pending [OF inv2 p2(1) p2(2), of outcome] p2 r1 by auto
    from s1 t1 r1 f1 none others s2 p2 fin n show ?thesis by auto
  qed
  from live cancel burst show ?thesis by blast
qed

theorem debounce_coalescing_witness:
  "exec initial [] = Some initial
   \<and> card (timers initial) \<le> 1
   \<and> \<not> isReInitializing initial \<and> (0::nat) < 5
   \<and> (\<exists>s1. exec initial (replicate 5 Trigger) = Some s1 \<and> runs s1 = 0 \<and> timers s1 = {4}
        \<and> step s1 (TimerFires 3) = None
        \<and> (\<exists>s2. step s1 (TimerFires 4) = Some s2 \<and> runs s2 = 1 \<and> timers s2 = {}
             \<and> (\<exists>s3. step s2 (RunSettles None) = Some s3 \<and> runs s3 = 1 \<and> inFlight s3 = 0
                   \<and> timers s3 = {} \<and> \<not> pendingReInit s3)))"
proof -
  have reach: "exec initial [] = Some initial" by simp
  have idle: "\<not> isReInitializing initial" by (simp add: initial_def)
  have z: "nextTimer initial = 0" "runs initial = 0" by (simp_all add: initial_def)
  from debounce_coalescing [OF reach, of 5] idle z
  have one: "card (timers initial) \<le> 1"
    and "\<exists>s1. exec initial (replicate 5 Trigger) = Some s1 \<and> runs s1 = 0 \<and> timers s1 = {4}
        \<and> step s1 (TimerFires 3) = None
        \<and> (\<exists>s2. step s1 (TimerFires 4) = Some s2 \<and> runs s2 = 1 \<and> timers s2 = {}
             \<and> (\<exists>s3. step s2 (RunSettles None) = Some s3 \<and> runs s3 = 1 \<and> inFlight s3 = 0
                   \<and> timers s3 = {} \<and> \<not> pendingReInit s3))"
    by (simp, fastforce)
  with reach idle show ?thesis by simp
qed

section \<open>The completion of a run\<close>

text \<open>
  Claim C4. Whatever the outcome of \<open>backend.reInitialize()\<close>, the second segment of
  \<open>reInitializeBackend\<close> raises no error: a rejection is caught and logged as an
  error, a fulfilment is logged as information. In both cases the
  \<open>finally\<close> block runs: the flag is reset, and the pending flag is examined and is
  clear afterwards; it was set exactly when \<open>debounceReInitializeBackend\<close> is called
  once more, which arms one timer. The requests themselves have no failing branch:
  every request is a transition of \<open>step\<close>.
\<close>

theorem cleanup_unconditional:
  "fst (reInitializeBackend_resume outcome s) = None
   \<and> \<not> isReInitializing (snd (reInitializeBackend_resume outcome s))
   \<and> \<not> pendingReInit (snd (reInitializeBackend_resume outcome s))
   \<and> logged (snd (reInitializeBackend_resume outcome s)) =
       logged s @ [case outcome of None \<Rightarrow> Info ''Extension active!''
                   | Some err \<Rightarrow> Error ''Error initializing:'' err]
   \<and> nextTimer (snd (reInitializeBackend_resume outcome s)) =
       (if pendingReInit s then Suc (nextTimer s) else nextTimer s)
   \<and> snd (reInitializeBackend_resume outcome s) =
       reInitializeBackend_finally
         (s\<lparr> logged := logged s @ [case outcome of None \<Rightarrow> Info ''Extension active!''
                                    | Some err \<Rightarrow> Error ''Error initializing:'' err] \<rparr>)
   \<and> step s Trigger \<noteq> None \<and> step s Call \<noteq> None"
  by (cases outcome)
    (simp_all add: reInitializeBackend_resume_def reInitializeBackend_finally_def
      debounceReInitializeBackend_def clearTimeout_def setTimeout_def logInfo_def logError_def
      Let_def split: option.splits)

theorem cleanup_unconditional_witness:
  "reInitializeBackend_resume (Some (Rejected ''no executable''))
     \<lparr> isReInitializing = True, pendingReInit = True, reInitializeTimeout = Some 0,
       timers = {}, nextTimer = 1, inFlight = 0, runs = 1, logged = [] \<rparr> =
   (None,
     \<lparr> isReInitializing = False, pendingReInit = False, reInitializeTimeout = Some 1,
       timers = {1}, nextTimer = 2, inFlight = 0, runs = 1,
       logged = [Error ''Error initializing:'' (Rejected ''no executable'')] \<rparr>)"
proof -
  let ?s = "\<lparr> isReInitializing = True, pendingReInit = True, reInitializeTimeout = Some 0,
       timers = {}, nextTimer = 1, inFlight = 0, runs = 1, logged = [] \<rparr>"
  let ?r = "reInitializeBackend_resume (Some (Rejected ''no executable'')) ?s"
  from cleanup_unconditional [of "Some (Rejected ''no executable'')" ?s]
  have "fst ?r = None" and "snd ?r = reInitializeBackend_finally
         (?s\<lparr> logged := logged ?s @ [Error ''Error initializing:'' (Rejected ''no executable'')] \<rparr>)"
    by simp_all
  then have "fst ?r = None" and "snd ?r =
     \<lparr> isReInitializing = False, pendingReInit = False, reInitializeTimeout = Some 1,
       timers = {1}, nextTimer = 2, inFlight = 0, runs = 1,
       logged = [Error ''Error initializing:'' (Rejected ''no executable'')] \<rparr>"
    by (simp_all add: reInitializeBackend_finally_def debounceReInitializeBackend_def
        clearTimeout_def setTimeout_def)
  then show ?thesis by (simp add: prod_eq_iff)
qed

section \<open>Invariants of the session\<close>

lemmas session_defs =
  reInitialize_def dispose_def releaseClient_def workspaceHasConfigFile_def startClient_def
  rootUriOf_def firstWorkspaceFolder_def emit_def

lemma session_inv_initial: "session_inv session_initial"
  by (simp add: session_inv_def no_leak_def live_def session_initial_def)

lemma session_inv_trace [simp]: "session_inv (s\<lparr> trace := t \<rparr>) = session_inv s"
  by (simp add: session_inv_def no_leak_def live_def)

lemma session_inv_emit [simp]: "session_inv (emit x s) = session_inv s"
  by (simp add: emit_def)

lemma releaseClient_inv: "session_inv s \<Longrightarrow> session_inv (snd (releaseClient e s))"
  by (auto simp: session_inv_def no_leak_def live_def releaseClient_def emit_def Let_def
      split: option.splits)

lemma releaseClient_cleared:
  "releaseClient e s = (None, s1) \<Longrightarrow> client s1 = None"
  by (auto simp: releaseClient_def emit_def Let_def split: option.splits)

lemma workspaceHasConfigFile_frame:
  "client (snd (workspaceHasConfigFile e s)) = client s
   \<and> constructed (snd (workspaceHasConfigFile e s)) = constructed s
   \<and> started (snd (workspaceHasConfigFile e s)) = started s
   \<and> disposed (snd (workspaceHasConfigFile e s)) = disposed s"
  by (simp add: workspaceHasConfigFile_def emit_def Let_def split: sum.splits option.splits)

lemma workspaceHasConfigFile_inv:
  "session_inv s \<Longrightarrow> session_inv (snd (workspaceHasConfigFile e s))"
  using workspaceHasConfigFile_frame [of e s]
  by (simp add: session_inv_def no_leak_def live_def)

lemma workspaceHasConfigFile_client:
  "client (snd (workspaceHasConfigFile e s)) = client s"
  using workspaceHasConfigFile_frame [of e s] by simp

lemma startClient_inv:
  assumes "session_inv s" and "client s = None"
  shows "session_inv (snd (startClient e p a s))"
  using assms
  by (auto simp: session_inv_def no_leak_def live_def startClient_def emit_def Let_def
      less_Suc_eq split: option.splits)

lemma session_inv_reInitialize:
  assumes inv: "session_inv s"
  shows "session_inv (snd (reInitialize e s))"
proof (cases "releaseClient e s")
  case (Pair r s1)
  have inv1: "session_inv s1"
    using releaseClient_inv [OF inv, of e] Pair by simp
  show ?thesis
  proof (cases r)
    case (Some err)
    with Pair inv1 show ?thesis by (simp add: reInitialize_def)
  next
    case None
    have c1: "client s1 = None"
      using releaseClient_cleared Pair None by blast
    obtain w s2 where w: "workspaceHasConfigFile e s1 = (w, s2)"
      by (cases "workspaceHasConfigFile e s1")
    have inv2: "session_inv s2"
      using workspaceHasConfigFile_inv [OF inv1, of e] w by simp
    have c2: "client s2 = None"
      using workspaceHasConfigFile_client [of e s1] w c1 by simp
    show ?thesis
    proof (cases w)
      case (Inl err)
      with Pair None w inv2 show ?thesis by (simp add: reInitialize_def)
    next
      case (Inr found)
      show ?thesis
      proof (cases found)
        case False
        with Pair None w Inr inv2 show ?thesis by (simp add: reInitialize_def)
      next
        case True
        show ?thesis
        proof (cases "rootUriOf e")
          case (Inl err)
          with Pair None w Inr True inv2 show ?thesis by (simp add: reInitialize_def)
        next
          case root: (Inr rootUri)
          have inv3: "session_inv (emit x s2)" and c3: "client (emit x s2) = None" for x
            using inv2 c2 by (simp_all add: emit_def)
          from Pair None w Inr True root show ?thesis
            using inv3 startClient_inv [OF inv3 c3]
            by (simp add: reInitialize_def Let_def split: sum.splits)
        qed
      qed
    qed
  qed
qed

lemma session_inv_dispose: "session_inv s \<Longrightarrow> session_inv (snd (dispose e s))"
  using releaseClient_inv [of s e]
  by (cases "releaseClient e s") (auto simp: dispose_def split: option.splits)

lemma session_inv_perform: "session_inv s \<Longrightarrow> session_inv (perform s r)"
  by (cases r) (simp_all add: session_inv_reInitialize session_inv_dispose)

lemma session_inv_foldl: "session_inv s \<Longrightarrow> session_inv (foldl perform s rs)"
  by (induction rs arbitrary: s) (simp_all add: session_inv_perform)

lemma session_inv_reachable: "session_inv (foldl perform session_initial rs)"
  using session_inv_initial by (rule session_inv_foldl)


section \<open>The paths through the session's methods\<close>

lemma releaseClient_cases:
  obtains (none) "client s = None" and "releaseClient e s = (None, s)"
  | (rejected) h err where "client s = Some h" and "stopOutcome e h = Some err"
      and "releaseClient e s = (Some err, s\<lparr> trace := trace s @ [ClientStop h 2000] \<rparr>)"
  | (released) h where "client s = Some h" and "stopOutcome e h = None"
      and "releaseClient e s =
             (None, s\<lparr> client := None, started := started s - {h},
                        disposed := insert h (disposed s),
                        trace := trace s @ [ClientStop h 2000, ClientDispose h] \<rparr>)"
proof (cases "client s")
  case None
  then show thesis
    using none by (simp add: releaseClient_def)
next
  case (Some h)
  show thesis
  proof (cases "stopOutcome e h")
    case None
    with Some show thesis
      using released [of h] by (simp add: releaseClient_def emit_def)
  next
    case (Some err)
    with \<open>client s = Some h\<close> show thesis
      using rejected [of h err] by (simp add: releaseClient_def emit_def)
  qed
qed

lemma workspaceHasConfigFile_answer:
  "fst (workspaceHasConfigFile e s) = fst (workspaceHasConfigFile e s')"
  by (simp add: workspaceHasConfigFile_def emit_def Let_def split: sum.splits option.splits)

lemma workspaceHasConfigFile_trace:
  "\<exists>xs. trace (snd (workspaceHasConfigFile e s)) = trace s @ DiscoverCall 1 # xs
      \<and> logs_of xs = [] \<and> (\<forall>x \<in> set xs. \<exists>u. x = AncestorCall u)"
  by (simp add: workspaceHasConfigFile_def emit_def Let_def logs_of_def
      split: sum.splits option.splits)

text \<open>What a call of reInitialize does once the previous client is released.\<close>

lemma reInitialize_released:
  assumes "releaseClient e s = (None, s1)"
  shows "reInitialize e s =
     (case workspaceHasConfigFile e s1 of
             (Inl err, s2) \<Rightarrow> (Some err, s2)
           | (Inr False, s2) \<Rightarrow> (None, emit (Logged (Info ''Configuration file not found.'')) s2)
           | (Inr True, s2) \<Rightarrow>
               (case rootUriOf e of
                  Inl err \<Rightarrow> (Some err, s2)
                | Inr rootUri \<Rightarrow>
                    (let config = getCombinedDprintConfig e
                                    (case workspaceFolders e of None \<Rightarrow> [] | Some fs \<Rightarrow> fs);
                         opts = \<lparr> optPathInfo = pathInfo config, optCwd = rootUri,
                                  optVerbose = verbose config \<rparr>;
                         s3 = emit (ResolveCall opts) s2
                     in case resolveCmdPath e opts of
                          Inl err \<Rightarrow> (Some err, s3)
                        | Inr cmdPath \<Rightarrow>
                            startClient e cmdPath
                              (if verbose config then [''lsp'', ''--verbose''] else [''lsp'']) s3)))"
  using assms by (simp add: reInitialize_def)

lemma reInitialize_stop_rejected:
  assumes "releaseClient e s = (Some err, s1)"
  shows "reInitialize e s = (Some err, s1)"
  using assms by (simp add: reInitialize_def)


lemma workspaceHasConfigFile_state:
  "\<exists>anc. snd (workspaceHasConfigFile e s) = s\<lparr> trace := trace s @ DiscoverCall 1 # anc \<rparr>
      \<and> (anc = [] \<or> (\<exists>f. firstWorkspaceFolder e = Some f \<and> anc = [AncestorCall (uri f)]))"
proof (cases "discoverWorkspaceConfigFiles e 1")
  case (Inl err)
  then show ?thesis
    by (intro exI [of _ "[]"]) (simp add: workspaceHasConfigFile_def emit_def)
next
  case (Inr configFiles)
  show ?thesis
  proof (cases "0 < length configFiles")
    case True
    with Inr show ?thesis
      by (intro exI [of _ "[]"]) (simp add: workspaceHasConfigFile_def emit_def)
  next
    case False
    show ?thesis
    proof (cases "firstWorkspaceFolder e")
      case None
      with Inr False show ?thesis
        by (intro exI [of _ "[]"]) (simp add: workspaceHasConfigFile_def emit_def)
    next
      case (Some f)
      with Inr False show ?thesis
        by (intro exI [of _ "[AncestorCall (uri f)]"]) (simp add: workspaceHasConfigFile_def emit_def)
    qed
  qed
qed

lemma logs_of_simps [simp]:
  "logs_of [] = []"
  "logs_of (xs @ ys) = logs_of xs @ logs_of ys"
  "logs_of (Logged m # xs) = m # logs_of xs"
  "logs_of (ClientStop h t # xs) = logs_of xs"
  "logs_of (ClientDispose h # xs) = logs_of xs"
  "logs_of (ClientNew h p a # xs) = logs_of xs"
  "logs_of (ClientStart h # xs) = logs_of xs"
  "logs_of (DiscoverCall n # xs) = logs_of xs"
  "logs_of (AncestorCall u # xs) = logs_of xs"
  "logs_of (ResolveCall opts # xs) = logs_of xs"
  "logs_of (ResourceStoresDispose # xs) = logs_of xs"
  by (simp_all add: logs_of_def)

lemma effects_since_append [simp]:
  "trace s' = trace s @ xs \<Longrightarrow> effects_since s s' = xs"
  by (simp add: effects_since_def)

text \<open>
  The two ways through the block that opens \<open>reInitialize\<close>: \<open>stop\<close> is rejected,
  or the previous client, if any, is released and the configuration gate is asked.
\<close>

lemma reInitialize_opening:
  obtains (rejected) h err where "client s = Some h" and "stopOutcome e h = Some err"
      and "reInitialize e s = (Some err, s\<lparr> trace := trace s @ [ClientStop h 2000] \<rparr>)"
  | (released) pre s1 anc s2 where "releaseClient e s = (None, s1)"
      and "pre = (case client s of None \<Rightarrow> [] | Some h \<Rightarrow> [ClientStop h 2000, ClientDispose h])"
      and "s1 = s\<lparr> client := None, started := started s - set_option (client s),
                    disposed := disposed s \<union> set_option (client s),
                    trace := trace s @ pre \<rparr>"
      and "workspaceHasConfigFile e s1 = (fst (workspaceHasConfigFile e s), s2)"
      and "s2 = s1\<lparr> trace := trace s @ pre @ DiscoverCall 1 # anc \<rparr>"
      and "anc = [] \<or> (\<exists>f. firstWorkspaceFolder e = Some f \<and> anc = [AncestorCall (uri f)])"
proof (cases rule: releaseClient_cases [of s e])
    case none
    note a = none

    let ?s1 = "s\<lparr> client := None, started := started s - set_option (client s),
                    disposed := disposed s \<union> set_option (client s),
                    trace := trace s @ [] \<rparr>"
    have s1: "?s1 = s" using a(1) by simp
    from workspaceHasConfigFile_state [of e s] obtain anc
      where anc: "snd (workspaceHasConfigFile e s) = s\<lparr> trace := trace s @ DiscoverCall 1 # anc \<rparr>"
        "anc = [] \<or> (\<exists>f. firstWorkspaceFolder e = Some f \<and> anc = [AncestorCall (uri f)])"
      by blast
    show thesis
    proof (rule that(2) [of ?s1 "[]" "?s1\<lparr> trace := trace s @ [] @ DiscoverCall 1 # anc \<rparr>" anc])
      show "releaseClient e s = (None, ?s1)" using a s1 by simp
      show "[] = (case client s of None \<Rightarrow> [] | Some h \<Rightarrow> [ClientStop h 2000, ClientDispose h])"
        using a(1) by simp
      show "workspaceHasConfigFile e ?s1 =
          (fst (workspaceHasConfigFile e s), ?s1\<lparr> trace := trace s @ [] @ DiscoverCall 1 # anc \<rparr>)"
        using anc(1) s1 by (simp add: prod_eq_iff)
    qed (use anc(2) in simp_all)
  next
    case (rejected h err)
    then show thesis
      using that(1) [of h err] by (simp add: reInitialize_def)
  next
    case (released h)
    note c = released
    let ?pre = "[ClientStop h 2000, ClientDispose h]"
    let ?s1 = "s\<lparr> client := None, started := started s - set_option (client s),
                    disposed := disposed s \<union> set_option (client s),
                    trace := trace s @ ?pre \<rparr>"
    from workspaceHasConfigFile_state [of e ?s1] obtain anc
      where anc: "snd (workspaceHasConfigFile e ?s1) = ?s1\<lparr> trace := trace ?s1 @ DiscoverCall 1 # anc \<rparr>"
        "anc = [] \<or> (\<exists>f. firstWorkspaceFolder e = Some f \<and> anc = [AncestorCall (uri f)])"
      by blast
    show thesis
    proof (rule that(2) [of ?s1 ?pre "?s1\<lparr> trace := trace s @ ?pre @ DiscoverCall 1 # anc \<rparr>" anc])
      show "releaseClient e s = (None, ?s1)" using c by simp
      show "?pre = (case client s of None \<Rightarrow> [] | Some h \<Rightarrow> [ClientStop h 2000, ClientDispose h])"
        using c(1) by simp
      show "workspaceHasConfigFile e ?s1 =
          (fst (workspaceHasConfigFile e s), ?s1\<lparr> trace := trace s @ ?pre @ DiscoverCall 1 # anc \<rparr>)"
        using anc(1) workspaceHasConfigFile_answer [of e ?s1 s] by (simp add: prod_eq_iff)
    qed (use anc(2) in simp_all)
qed


lemma startClient_result:
  "startClient e p a s =
     (case startOutcome e (constructed s) of
        Some err \<Rightarrow>
          (Some err, s\<lparr> client := Some (constructed s), constructed := Suc (constructed s),
                        trace := trace s @ [ClientNew (constructed s) p a, ClientStart (constructed s)] \<rparr>)
      | None \<Rightarrow>
          (None, s\<lparr> client := Some (constructed s), constructed := Suc (constructed s),
                     started := insert (constructed s) (started s),
                     trace := trace s @ [ClientNew (constructed s) p a, ClientStart (constructed s),
                       Logged (Info ''Started experimental language server.'')] \<rparr>))"
  by (simp add: startClient_def emit_def Let_def split: option.splits)

lemma reInitialize_after_release:
  assumes "releaseClient e s = (None, s1)"
  shows "\<exists>rest. trace (snd (reInitialize e s)) = trace s1 @ DiscoverCall 1 # rest
    \<and> disposed (snd (reInitialize e s)) = disposed s1"
proof -
  from workspaceHasConfigFile_state [of e s1] obtain anc
    where s2: "snd (workspaceHasConfigFile e s1) = s1\<lparr> trace := trace s1 @ DiscoverCall 1 # anc \<rparr>"
    by blast
  obtain w where w: "workspaceHasConfigFile e s1 = (w, s1\<lparr> trace := trace s1 @ DiscoverCall 1 # anc \<rparr>)"
    using s2 by (cases "workspaceHasConfigFile e s1") simp
  note run = reInitialize_released [OF assms, unfolded w]
  show ?thesis
  proof (cases w)
    case (Inl err)
    with run show ?thesis by simp
  next
    case (Inr found)
    show ?thesis
    proof (cases found)
      case False
      with run Inr show ?thesis by (simp add: emit_def)
    next
      case True
      show ?thesis
      proof (cases "rootUriOf e")
        case (Inl err)
        with run Inr True show ?thesis by simp
      next
        case root: (Inr rootUri)
        let ?config = "getCombinedDprintConfig e
                        (case workspaceFolders e of None \<Rightarrow> [] | Some fs \<Rightarrow> fs)"
        let ?opts = "\<lparr> optPathInfo = pathInfo ?config, optCwd = rootUri,
                        optVerbose = verbose ?config \<rparr>"
        show ?thesis
        proof (cases "resolveCmdPath e ?opts")
          case (Inl err)
          with run Inr True root show ?thesis by (simp add: emit_def Let_def)
        next
          case cmd: (Inr cmdPath)
          with run Inr True root show ?thesis
            by (cases "startOutcome e (constructed s1)")
              (simp_all add: emit_def Let_def startClient_result)
        qed
      qed
    qed
  qed
qed


section \<open>Restarting the session\<close>




section \<open>The outcomes of a restart\<close>

text \<open>
  The configuration gate is asked in exactly the calls that get past the opening block:
  those with no client held or with \<open>client.stop\<close> fulfilled.
\<close>

lemma gate_asked_iff:
  "DiscoverCall 1 \<in> set (effects_since s (snd (reInitialize e s)))
    \<longleftrightarrow> fst (releaseClient e s) = None"
proof (cases rule: releaseClient_cases [of s e])
  case none
  from reInitialize_after_release [OF none(2)] none(2) show ?thesis
    by auto
next
  case (rejected h err)
  then show ?thesis
    by (simp add: reInitialize_def)
next
  case (released h)
  from reInitialize_after_release [OF released(3)] released(3) show ?thesis
    by auto
qed

text \<open>
  Claim C6. In every call of \<open>reInitialize\<close> in which \<open>workspaceHasConfigFile\<close> is
  called and answers false, the method returns without an error, the variable
  \<open>client\<close> is undefined afterwards (the session is stopped and not running), no client
  was constructed, and the one line the call wrote to the log is the information
  \<open>Configuration file not found.\<close>
\<close>

theorem config_absent:
  assumes asked: "DiscoverCall 1 \<in> set (effects_since s (snd (reInitialize e s)))"
    and absent: "fst (workspaceHasConfigFile e s) = Inr False"
  shows "fst (reInitialize e s) = None
    \<and> client (snd (reInitialize e s)) = None
    \<and> session_stopped (snd (reInitialize e s))
    \<and> \<not> session_running (snd (reInitialize e s))
    \<and> constructed (snd (reInitialize e s)) = constructed s
    \<and> logs_of (effects_since s (snd (reInitialize e s))) = [Info ''Configuration file not found.'']"
proof (cases rule: reInitialize_opening [of s e])
  case (rejected h err)
  with asked show ?thesis by simp
next
  case (released pre s1 anc s2)
  note run = reInitialize_released [OF released(1), unfolded released(4)]
  have quiet: "logs_of pre = []" "logs_of anc = []"
    using released(2,6) by (auto split: option.splits)
  from run absent released(3,5) quiet show ?thesis
    by (simp add: emit_def session_stopped_def session_running_def)
qed

theorem config_absent_witness:
  "DiscoverCall 1 \<in> set (effects_since session_initial
      (snd (reInitialize (sample_env\<lparr> discoverWorkspaceConfigFiles := (\<lambda>_. Inr []) \<rparr>)
         session_initial)))
   \<and> fst (workspaceHasConfigFile (sample_env\<lparr> discoverWorkspaceConfigFiles := (\<lambda>_. Inr []) \<rparr>)
        session_initial) = Inr False
   \<and> reInitialize (sample_env\<lparr> discoverWorkspaceConfigFiles := (\<lambda>_. Inr []) \<rparr>) session_initial =
       (None, \<lparr> client = None, constructed = 0, started = {}, disposed = {},
                trace = [DiscoverCall 1, AncestorCall ''/w'',
                         Logged (Info ''Configuration file not found.'')] \<rparr>)
   \<and> logs_of (effects_since session_initial
        (snd (reInitialize (sample_env\<lparr> discoverWorkspaceConfigFiles := (\<lambda>_. Inr []) \<rparr>)
           session_initial))) = [Info ''Configuration file not found.'']"
proof -
  let ?e = "sample_env\<lparr> discoverWorkspaceConfigFiles := (\<lambda>_. Inr []) \<rparr>"
  have run: "reInitialize ?e session_initial =
       (None, \<lparr> client = None, constructed = 0, started = {}, disposed = {},
                trace = [DiscoverCall 1, AncestorCall ''/w'',
                         Logged (Info ''Configuration file not found.'')] \<rparr>)"
    by (simp add: session_defs sample_env_def session_initial_def)
  have asked: "DiscoverCall 1 \<in> set (effects_since session_initial (snd (reInitialize ?e session_initial)))"
    by (simp only: run) (simp add: effects_since_def session_initial_def)
  have absent: "fst (workspaceHasConfigFile ?e session_initial) = Inr False"
    by (simp add: session_defs sample_env_def session_initial_def)
  from config_absent [OF asked absent] asked absent run show ?thesis
    by blast
qed

text \<open>
  Claim C7. In every call of \<open>reInitialize\<close> in which \<open>resolveCmdPath\<close> is called
  and fails, a configuration file was found, the error of \<open>resolveCmdPath\<close> leaves
  \<open>reInitialize\<close>, the variable \<open>client\<close> is undefined afterwards, no client was
  constructed and the client held before, if any, was disposed. The controller, resumed
  with this outcome, catches the error and logs it.
\<close>

theorem resolution_failure:
  assumes asked: "ResolveCall opts \<in> set (effects_since s (snd (reInitialize e s)))"
    and failed: "resolveCmdPath e opts = Inl err"
  shows "fst (workspaceHasConfigFile e s) = Inr True
    \<and> fst (reInitialize e s) = Some err
    \<and> client (snd (reInitialize e s)) = None
    \<and> session_stopped (snd (reInitialize e s))
    \<and> constructed (snd (reInitialize e s)) = constructed s
    \<and> live (snd (reInitialize e s)) = live s - set_option (client s)
    \<and> logs_of (effects_since s (snd (reInitialize e s))) = []
    \<and> fst (reInitializeBackend_resume (fst (reInitialize e s)) c) = None
    \<and> logged (snd (reInitializeBackend_resume (fst (reInitialize e s)) c)) =
        logged c @ [Error ''Error initializing:'' err]"
proof (cases rule: reInitialize_opening [of s e])
  case (rejected h err')
  with asked show ?thesis by simp
next
  case (released pre s1 anc s2)
  note run = reInitialize_released [OF released(1), unfolded released(4)]
  have quiet: "logs_of pre = []" "logs_of anc = []"
    and other: "ResolveCall opts \<notin> set pre" "ResolveCall opts \<notin> set anc"
    using released(2,6) by (auto split: option.splits)
  have gone: "live s1 = live s - set_option (client s)"
    using released(3) by (auto simp: live_def)
  have logged: "fst (reInitializeBackend_resume (Some x) c) = None
      \<and> logged (snd (reInitializeBackend_resume (Some x) c)) =
          logged c @ [Error ''Error initializing:'' x]" for x
    by (simp add: reInitializeBackend_resume_def reInitializeBackend_finally_def
        debounceReInitializeBackend_def clearTimeout_def setTimeout_def logError_def Let_def
        split: option.splits)
  show ?thesis
  proof (cases "fst (workspaceHasConfigFile e s)")
    case (Inl err')
    with run asked released(3,5) other show ?thesis by simp
  next
    case (Inr found)
    show ?thesis
    proof (cases found)
      case False
      with run Inr asked released(3,5) other show ?thesis by (simp add: emit_def)
    next
      case True
      show ?thesis
      proof (cases "rootUriOf e")
        case (Inl err')
        with run Inr True asked released(3,5) other show ?thesis by simp
      next
        case root: (Inr rootUri)
        let ?config = "getCombinedDprintConfig e
                        (case workspaceFolders e of None \<Rightarrow> [] | Some fs \<Rightarrow> fs)"
        let ?opts = "\<lparr> optPathInfo = pathInfo ?config, optCwd = rootUri,
                        optVerbose = verbose ?config \<rparr>"
        show ?thesis
        proof (cases "resolveCmdPath e ?opts")
          case (Inl err')
          with run Inr True root released(3,5) have res: "reInitialize e s =
              (Some err', s1\<lparr> trace := trace s @ pre @ DiscoverCall 1 # anc @ [ResolveCall ?opts] \<rparr>)"
            by (simp add: emit_def Let_def)
          with asked other released(3) have "opts = ?opts" by simp
          with failed Inl have "err' = err" by simp
          with res released(3) quiet gone logged [of err] Inr True show ?thesis
            by (simp add: session_stopped_def live_def)
        next
          case cmd: (Inr cmdPath)
          with run Inr True root released(3,5) asked other have "opts = ?opts"
            by (cases "startOutcome e (constructed s)")
              (simp_all add: emit_def Let_def startClient_result)
          with failed cmd show ?thesis by simp
        qed
      qed
    qed
  qed
qed

theorem resolution_failure_witness:
  "ResolveCall \<lparr> optPathInfo = None, optCwd = Some ''/w'', optVerbose = False \<rparr>
     \<in> set (effects_since (foldl perform session_initial [ReInitialize sample_env])
          (snd (reInitialize
            (sample_env\<lparr> resolveCmdPath := (\<lambda>_. Inl (Rejected ''path not approved'')) \<rparr>)
            (foldl perform session_initial [ReInitialize sample_env]))))
   \<and> resolveCmdPath (sample_env\<lparr> resolveCmdPath := (\<lambda>_. Inl (Rejected ''path not approved'')) \<rparr>)
        \<lparr> optPathInfo = None, optCwd = Some ''/w'', optVerbose = False \<rparr>
       = Inl (Rejected ''path not approved'')
   \<and> fst (reInitialize
            (sample_env\<lparr> resolveCmdPath := (\<lambda>_. Inl (Rejected ''path not approved'')) \<rparr>)
            (foldl perform session_initial [ReInitialize sample_env]))
       = Some (Rejected ''path not approved'')
   \<and> client (snd (reInitialize
            (sample_env\<lparr> resolveCmdPath := (\<lambda>_. Inl (Rejected ''path not approved'')) \<rparr>)
            (foldl perform session_initial [ReInitialize sample_env]))) = None
   \<and> live (snd (reInitialize
            (sample_env\<lparr> resolveCmdPath := (\<lambda>_. Inl (Rejected ''path not approved'')) \<rparr>)
            (foldl perform session_initial [ReInitialize sample_env]))) = {}
   \<and> logged (snd (reInitializeBackend_resume (fst (reInitialize
            (sample_env\<lparr> resolveCmdPath := (\<lambda>_. Inl (Rejected ''path not approved'')) \<rparr>)
            (foldl perform session_initial [ReInitialize sample_env]))) initial))
       = [Error ''Error initializing:'' (Rejected ''path not approved'')]"
proof -
  let ?e = "sample_env\<lparr> resolveCmdPath := (\<lambda>_. Inl (Rejected ''path not approved'')) \<rparr>"
  let ?opts = "\<lparr> optPathInfo = None, optCwd = Some ''/w'', optVerbose = False \<rparr>"
  let ?s = "foldl perform session_initial [ReInitialize sample_env]"
  have s: "?s = \<lparr> client = Some 0, constructed = 1, started = {0}, disposed = {},
      trace = [DiscoverCall 1, ResolveCall ?opts, ClientNew 0 ''dprint'' [''lsp''], ClientStart 0,
        Logged (Info ''Started experimental language server.'')] \<rparr>"
    by (simp add: session_defs sample_env_def session_initial_def)
  have run: "snd (reInitialize ?e ?s) = \<lparr> client = None, constructed = 1, started = {},
      disposed = {0},
      trace = [DiscoverCall 1, ResolveCall ?opts, ClientNew 0 ''dprint'' [''lsp''], ClientStart 0,
        Logged (Info ''Started experimental language server.''),
        ClientStop 0 2000, ClientDispose 0, DiscoverCall 1, ResolveCall ?opts] \<rparr>"
    by (simp only: s) (simp add: session_defs sample_env_def)
  have asked: "ResolveCall ?opts \<in> set (effects_since ?s (snd (reInitialize ?e ?s)))"
    by (simp only: run) (simp only: s, simp add: effects_since_def)
  have failed: "resolveCmdPath ?e ?opts = Inl (Rejected ''path not approved'')"
    by simp
  have before: "live ?s - set_option (client ?s) = {}"
    by (simp only: s) (simp add: live_def lessThan_Suc)
  note r = resolution_failure [OF asked failed, of initial]
  from r have err: "fst (reInitialize ?e ?s) = Some (Rejected ''path not approved'')"
    and none: "client (snd (reInitialize ?e ?s)) = None"
    by blast+
  from r have "live (snd (reInitialize ?e ?s)) = live ?s - set_option (client ?s)"
    by blast
  also note before
  finally have live: "live (snd (reInitialize ?e ?s)) = {}" .
  from r have "logged (snd (reInitializeBackend_resume (fst (reInitialize ?e ?s)) initial))
       = logged initial @ [Error ''Error initializing:'' (Rejected ''path not approved'')]"
    by blast
  also have "\<dots> = [Error ''Error initializing:'' (Rejected ''path not approved'')]"
    by (simp add: initial_def)
  finally have log: "logged (snd (reInitializeBackend_resume (fst (reInitialize ?e ?s)) initial))
       = [Error ''Error initializing:'' (Rejected ''path not approved'')]" .
  from asked failed err none live log show ?thesis
    by blast
qed

section \<open>A client that fails to start\<close>




lemma held_client_kept:
  assumes held: "client s = Some h" and fails: "stopOutcome e h = Some err"
  shows "reInitialize e s = (Some err, emit (ClientStop h 2000) s)
    \<and> dispose e s = (Some err, emit (ClientStop h 2000) s)"
  using assms by (simp add: reInitialize_def dispose_def releaseClient_def)



section \<open>Disposing the session\<close>

text \<open>
  The claim C9 as stated, that two calls of \<open>dispose\<close> in succession throw nothing and
  leave no handle, fails while \<open>client.stop\<close> is rejected: nothing catches the
  rejection in \<open>dispose\<close>, so both calls throw and the client stays in the variable,
  live.
\<close>

theorem idempotent_dispose_counterexample:
  "fst (dispose (sample_env\<lparr> stopOutcome := (\<lambda>_. Some (Rejected ''stop failed'')) \<rparr>)
      (foldl perform session_initial [ReInitialize sample_env]))
     = Some (Rejected ''stop failed'')
   \<and> fst (dispose (sample_env\<lparr> stopOutcome := (\<lambda>_. Some (Rejected ''stop failed'')) \<rparr>)
      (snd (dispose (sample_env\<lparr> stopOutcome := (\<lambda>_. Some (Rejected ''stop failed'')) \<rparr>)
        (foldl perform session_initial [ReInitialize sample_env]))))
     = Some (Rejected ''stop failed'')
   \<and> client (snd (dispose (sample_env\<lparr> stopOutcome := (\<lambda>_. Some (Rejected ''stop failed'')) \<rparr>)
      (snd (dispose (sample_env\<lparr> stopOutcome := (\<lambda>_. Some (Rejected ''stop failed'')) \<rparr>)
        (foldl perform session_initial [ReInitialize sample_env])))))
     = Some 0
   \<and> live (snd (dispose (sample_env\<lparr> stopOutcome := (\<lambda>_. Some (Rejected ''stop failed'')) \<rparr>)
      (snd (dispose (sample_env\<lparr> stopOutcome := (\<lambda>_. Some (Rejected ''stop failed'')) \<rparr>)
        (foldl perform session_initial [ReInitialize sample_env])))))
     = {0}"
proof -
  let ?stuck = "sample_env\<lparr> stopOutcome := (\<lambda>_. Some (Rejected ''stop failed'')) \<rparr>"
  let ?opts = "\<lparr> optPathInfo = None, optCwd = Some ''/w'', optVerbose = False \<rparr>"
  let ?s = "foldl perform session_initial [ReInitialize sample_env]"
  have s: "?s = \<lparr> client = Some 0, constructed = 1, started = {0}, disposed = {},
      trace = [DiscoverCall 1, ResolveCall ?opts, ClientNew 0 ''dprint'' [''lsp''], ClientStart 0,
        Logged (Info ''Started experimental language server.'')] \<rparr>"
    by (simp add: session_defs sample_env_def session_initial_def)
  have once: "dispose ?stuck ?s = (Some (Rejected ''stop failed''), emit (ClientStop 0 2000) ?s)"
    by (simp only: s) (simp add: dispose_def releaseClient_def)
  have twice: "dispose ?stuck (emit (ClientStop 0 2000) ?s) =
      (Some (Rejected ''stop failed''), emit (ClientStop 0 2000) (emit (ClientStop 0 2000) ?s))"
    by (simp only: s) (simp add: dispose_def releaseClient_def emit_def)
  have left: "client (emit (ClientStop 0 2000) (emit (ClientStop 0 2000) ?s)) = Some 0"
    "live (emit (ClientStop 0 2000) (emit (ClientStop 0 2000) ?s)) = {0}"
    by (simp_all only: s) (simp_all add: emit_def live_def lessThan_Suc)
  from once twice left show ?thesis
    by simp
qed

text \<open>
  Claim C9, amended. \<open>dispose\<close> on a session whose variable is undefined throws nothing
  and only disposes the resource stores: no call reaches a client. A call of
  \<open>dispose\<close> returns whenever there is no client or \<open>client.stop\<close> is fulfilled. When
  a call of \<open>dispose\<close> has returned, the variable is undefined and, in a state the
  session can reach, no handle is live; a second call after it throws nothing and leaves
  the variable, the started and the disposed clients as the first call left them (it
  only disposes the resource stores again), whatever the collaborators answer. When
  \<open>client.stop\<close> is rejected, \<open>dispose\<close> throws that error after the call of
  \<open>stop\<close> and does nothing else: the client stays in the variable, the resource stores
  are not disposed, and a second call in which \<open>stop\<close> is rejected again does the same.
\<close>

theorem idempotent_dispose:
  assumes reach: "s = foldl perform session_initial rs"
  shows "(client s = None \<longrightarrow> dispose e s = (None, emit ResourceStoresDispose s))
    \<and> ((\<forall>h. client s = Some h \<longrightarrow> stopOutcome e h = None) \<longrightarrow> fst (dispose e s) = None)
    \<and> (fst (dispose e s) = None \<longrightarrow>
         (let s1 = snd (dispose e s); s2 = snd (dispose e' s1)
          in client s1 = None \<and> live s1 = {} \<and> fst (dispose e' s1) = None
           \<and> client s2 = client s1 \<and> constructed s2 = constructed s1
           \<and> started s2 = started s1 \<and> disposed s2 = disposed s1 \<and> live s2 = {}
           \<and> effects_since s1 s2 = [ResourceStoresDispose]))
    \<and> (client s = Some h \<and> stopOutcome e h = Some err \<longrightarrow>
         dispose e s = (Some err, emit (ClientStop h 2000) s)
         \<and> client (snd (dispose e s)) = Some h
         \<and> started (snd (dispose e s)) = started s
         \<and> disposed (snd (dispose e s)) = disposed s
         \<and> live (snd (dispose e s)) = live s
         \<and> (stopOutcome e' h = Some err' \<longrightarrow>
              dispose e' (snd (dispose e s)) =
                (Some err', emit (ClientStop h 2000) (snd (dispose e s)))))"
proof -
  have stopped: "dispose e t = (None, emit ResourceStoresDispose t)" if "client t = None" for e t
    using that by (simp add: dispose_def releaseClient_def)
  have returns: "fst (dispose e s) = None" if "\<forall>h. client s = Some h \<longrightarrow> stopOutcome e h = None"
    using that by (cases rule: releaseClient_cases [of s e]) (simp_all add: dispose_def)
  have inv: "session_inv s"
    unfolding reach by (rule session_inv_reachable)
  have twice: "(let s1 = snd (dispose e s); s2 = snd (dispose e' s1)
          in client s1 = None \<and> live s1 = {} \<and> fst (dispose e' s1) = None
           \<and> client s2 = client s1 \<and> constructed s2 = constructed s1
           \<and> started s2 = started s1 \<and> disposed s2 = disposed s1 \<and> live s2 = {}
           \<and> effects_since s1 s2 = [ResourceStoresDispose])"
    if ret: "fst (dispose e s) = None"
  proof -
    let ?s1 = "snd (dispose e s)"
    have c1: "client ?s1 = None"
      using ret by (cases rule: releaseClient_cases [of s e]) (simp_all add: dispose_def emit_def)
    have "session_inv ?s1"
      using inv by (rule session_inv_dispose)
    with c1 have l1: "live ?s1 = {}"
      by (simp add: session_inv_def no_leak_def)
    note again = stopped [OF c1, of e']
    from c1 l1 again show ?thesis
      by (simp add: Let_def emit_def live_def)
  qed
  have thrown: "dispose e s = (Some err, emit (ClientStop h 2000) s)
         \<and> client (snd (dispose e s)) = Some h
         \<and> started (snd (dispose e s)) = started s
         \<and> disposed (snd (dispose e s)) = disposed s
         \<and> live (snd (dispose e s)) = live s
         \<and> (stopOutcome e' h = Some err' \<longrightarrow>
              dispose e' (snd (dispose e s)) =
                (Some err', emit (ClientStop h 2000) (snd (dispose e s))))"
    if held: "client s = Some h" and fails: "stopOutcome e h = Some err"
  proof -
    from held_client_kept [OF held fails]
    have once: "dispose e s = (Some err, emit (ClientStop h 2000) s)"
      by blast
    have still: "client (emit (ClientStop h 2000) s) = Some h"
      using held by (simp add: emit_def)
    have again: "dispose e' (emit (ClientStop h 2000) s) =
        (Some err', emit (ClientStop h 2000) (emit (ClientStop h 2000) s))"
      if "stopOutcome e' h = Some err'"
      using held_client_kept [OF still that] by blast
    from once still again show ?thesis
      by (simp add: emit_def live_def)
  qed
  from stopped returns twice thrown show ?thesis by blast
qed

theorem idempotent_dispose_witness:
  "foldl perform session_initial [ReInitialize sample_env] =
     foldl perform session_initial [ReInitialize sample_env]
   \<and> client (foldl perform session_initial [ReInitialize sample_env]) = Some 0
   \<and> stopOutcome sample_env 0 = None
   \<and> fst (dispose sample_env (foldl perform session_initial [ReInitialize sample_env])) = None
   \<and> client (snd (dispose sample_env
        (foldl perform session_initial [ReInitialize sample_env]))) = None
   \<and> live (snd (dispose sample_env
        (foldl perform session_initial [ReInitialize sample_env]))) = {}
   \<and> fst (dispose sample_env (snd (dispose sample_env
        (foldl perform session_initial [ReInitialize sample_env])))) = None
   \<and> effects_since
        (snd (dispose sample_env (foldl perform session_initial [ReInitialize sample_env])))
        (snd (dispose sample_env (snd (dispose sample_env
          (foldl perform session_initial [ReInitialize sample_env])))))
       = [ResourceStoresDispose]
   \<and> client session_initial = None
   \<and> dispose sample_env session_initial = (None, emit ResourceStoresDispose session_initial)
   \<and> stopOutcome (sample_env\<lparr> stopOutcome := (\<lambda>_. Some (Rejected ''stop failed'')) \<rparr>) 0
       = Some (Rejected ''stop failed'')
   \<and> dispose (sample_env\<lparr> stopOutcome := (\<lambda>_. Some (Rejected ''stop failed'')) \<rparr>)
        (foldl perform session_initial [ReInitialize sample_env])
       = (Some (Rejected ''stop failed''),
          emit (ClientStop 0 2000) (foldl perform session_initial [ReInitialize sample_env]))
   \<and> dispose (sample_env\<lparr> stopOutcome := (\<lambda>_. Some (Rejected ''stop failed'')) \<rparr>)
        (snd (dispose (sample_env\<lparr> stopOutcome := (\<lambda>_. Some (Rejected ''stop failed'')) \<rparr>)
          (foldl perform session_initial [ReInitialize sample_env])))
       = (Some (Rejected ''stop failed''),
          emit (ClientStop 0 2000)
            (snd (dispose (sample_env\<lparr> stopOutcome := (\<lambda>_. Some (Rejected ''stop failed'')) \<rparr>)
              (foldl perform session_initial [ReInitialize sample_env]))))"
proof -
  let ?stuck = "sample_env\<lparr> stopOutcome := (\<lambda>_. Some (Rejected ''stop failed'')) \<rparr>"
  let ?s = "foldl perform session_initial [ReInitialize sample_env]"
  have held: "client ?s = Some 0"
    by (simp add: session_defs sample_env_def session_initial_def)
  have stops: "stopOutcome sample_env 0 = None"
    by (simp add: sample_env_def)
  from held stops have all: "\<forall>h. client ?s = Some h \<longrightarrow> stopOutcome sample_env h = None"
    by simp
  note first = idempotent_dispose [where rs = "[ReInitialize sample_env]" and e = sample_env
      and e' = sample_env, OF refl]
  from first all have ret: "fst (dispose sample_env ?s) = None"
    by blast
  from first ret have after: "client (snd (dispose sample_env ?s)) = None"
    "live (snd (dispose sample_env ?s)) = {}"
    "fst (dispose sample_env (snd (dispose sample_env ?s))) = None"
    "effects_since (snd (dispose sample_env ?s))
        (snd (dispose sample_env (snd (dispose sample_env ?s)))) = [ResourceStoresDispose]"
    unfolding Let_def by blast+
  have none: "client session_initial = None"
    by (simp add: session_initial_def)
  from idempotent_dispose [where rs = "[]" and e = sample_env and e' = sample_env] none
  have stopped: "dispose sample_env session_initial = (None, emit ResourceStoresDispose session_initial)"
    by simp
  have fails: "stopOutcome ?stuck 0 = Some (Rejected ''stop failed'')"
    by simp
  from idempotent_dispose [where rs = "[ReInitialize sample_env]" and e = ?stuck
      and e' = ?stuck and h = 0 and err = "Rejected ''stop failed''"
      and err' = "Rejected ''stop failed''", OF refl] held fails
  have stuck: "dispose ?stuck ?s = (Some (Rejected ''stop failed''), emit (ClientStop 0 2000) ?s)"
    "dispose ?stuck (snd (dispose ?stuck ?s)) =
       (Some (Rejected ''stop failed''), emit (ClientStop 0 2000) (snd (dispose ?stuck ?s)))"
    by blast+
  from held stops ret after none stopped fails stuck show ?thesis
    by blast
qed

section \<open>The configuration gate\<close>

text \<open>
  Claim C10. \<open>workspaceHasConfigFile\<close> answers true exactly when the discovery in the
  workspace, asked for at most one result, returns a file, or returns none while there
  is a first workspace folder and \<open>ancestorDirsContainConfigFile\<close> answers true for
  its uri. Without a workspace folder, and no file discovered, the answer is false and
  the ancestors are not searched. Discovery is only asked with \<open>maxResults\<close> 1; the
  ancestors are searched only when discovery returned no file, and only for the first
  folder, so the answers for other folders do not matter.
\<close>

theorem config_gate:
  "(fst (workspaceHasConfigFile e s) = Inr True \<longleftrightarrow>
      (\<exists>files. discoverWorkspaceConfigFiles e 1 = Inr files
         \<and> (files \<noteq> []
             \<or> (\<exists>f fs. workspaceFolders e = Some (f # fs)
                   \<and> ancestorDirsContainConfigFile e (uri f) = Inr True))))
   \<and> (discoverWorkspaceConfigFiles e 1 = Inr []
        \<and> (workspaceFolders e = None \<or> workspaceFolders e = Some []) \<longrightarrow>
          workspaceHasConfigFile e s = (Inr False, emit (DiscoverCall 1) s))
   \<and> (\<forall>n. DiscoverCall n \<in> set (effects_since s (snd (workspaceHasConfigFile e s))) \<longrightarrow> n = 1)
   \<and> (\<forall>u. AncestorCall u \<in> set (effects_since s (snd (workspaceHasConfigFile e s))) \<longrightarrow>
         discoverWorkspaceConfigFiles e 1 = Inr []
         \<and> (\<exists>f fs. workspaceFolders e = Some (f # fs) \<and> u = uri f))
   \<and> (\<forall>other. fst (workspaceHasConfigFile
          (e\<lparr> ancestorDirsContainConfigFile :=
                 (\<lambda>u. if firstWorkspaceFolder e \<noteq> None \<and> u = uri (the (firstWorkspaceFolder e))
                      then ancestorDirsContainConfigFile e u else other u) \<rparr>) s)
        = fst (workspaceHasConfigFile e s))"
proof (cases "discoverWorkspaceConfigFiles e 1")
  case (Inl err)
  then show ?thesis
    by (simp add: workspaceHasConfigFile_def firstWorkspaceFolder_def emit_def effects_since_def)
next
  case (Inr files)
  show ?thesis
  proof (cases "files = []")
    case False
    with Inr show ?thesis
      by (simp add: workspaceHasConfigFile_def firstWorkspaceFolder_def emit_def
          effects_since_def)
  next
    case True
    show ?thesis
    proof (cases "workspaceFolders e")
      case None
      with Inr True show ?thesis
        by (simp add: workspaceHasConfigFile_def firstWorkspaceFolder_def emit_def
            effects_since_def)
    next
      case (Some folders)
      show ?thesis
      proof (cases folders)
        case Nil
        with Inr True Some show ?thesis
          by (simp add: workspaceHasConfigFile_def firstWorkspaceFolder_def emit_def
              effects_since_def)
      next
        case (Cons f fs)
        with Inr True Some show ?thesis
          by (simp add: workspaceHasConfigFile_def firstWorkspaceFolder_def emit_def
              effects_since_def)
      qed
    qed
  qed
qed

theorem config_gate_witness:
  "discoverWorkspaceConfigFiles
       (sample_env\<lparr> discoverWorkspaceConfigFiles := (\<lambda>_. Inr []), workspaceFolders := None \<rparr>) 1
     = Inr []
   \<and> workspaceFolders
       (sample_env\<lparr> discoverWorkspaceConfigFiles := (\<lambda>_. Inr []), workspaceFolders := None \<rparr>)
     = None
   \<and> workspaceHasConfigFile
       (sample_env\<lparr> discoverWorkspaceConfigFiles := (\<lambda>_. Inr []), workspaceFolders := None \<rparr>)
       session_initial
     = (Inr False, emit (DiscoverCall 1) session_initial)
   \<and> AncestorCall ''/a/b'' \<in> set (effects_since session_initial
        (snd (workspaceHasConfigFile
          (sample_env\<lparr> discoverWorkspaceConfigFiles := (\<lambda>_. Inr []),
             workspaceFolders := Some [\<lparr> uri = ''/a/b'' \<rparr>, \<lparr> uri = ''/c/d'' \<rparr>],
             ancestorDirsContainConfigFile := (\<lambda>u. Inr (u = ''/c/d'')) \<rparr>)
          session_initial)))
   \<and> AncestorCall ''/c/d'' \<notin> set (effects_since session_initial
        (snd (workspaceHasConfigFile
          (sample_env\<lparr> discoverWorkspaceConfigFiles := (\<lambda>_. Inr []),
             workspaceFolders := Some [\<lparr> uri = ''/a/b'' \<rparr>, \<lparr> uri = ''/c/d'' \<rparr>],
             ancestorDirsContainConfigFile := (\<lambda>u. Inr (u = ''/c/d'')) \<rparr>)
          session_initial)))
   \<and> fst (workspaceHasConfigFile
          (sample_env\<lparr> discoverWorkspaceConfigFiles := (\<lambda>_. Inr []),
             workspaceFolders := Some [\<lparr> uri = ''/a/b'' \<rparr>, \<lparr> uri = ''/c/d'' \<rparr>],
             ancestorDirsContainConfigFile := (\<lambda>u. Inr (u = ''/c/d'')) \<rparr>)
          session_initial) \<noteq> Inr True"
proof -
  let ?bare = "sample_env\<lparr> discoverWorkspaceConfigFiles := (\<lambda>_. Inr []), workspaceFolders := None \<rparr>"
  let ?e = "sample_env\<lparr> discoverWorkspaceConfigFiles := (\<lambda>_. Inr []),
             workspaceFolders := Some [\<lparr> uri = ''/a/b'' \<rparr>, \<lparr> uri = ''/c/d'' \<rparr>],
             ancestorDirsContainConfigFile := (\<lambda>u. Inr (u = ''/c/d'')) \<rparr>"
  have none: "discoverWorkspaceConfigFiles ?bare 1 = Inr []" "workspaceFolders ?bare = None"
    by simp_all
  from config_gate [of ?bare session_initial] none
  have skipped: "workspaceHasConfigFile ?bare session_initial =
      (Inr False, emit (DiscoverCall 1) session_initial)"
    by blast
  have asked: "AncestorCall ''/a/b'' \<in> set (effects_since session_initial
        (snd (workspaceHasConfigFile ?e session_initial)))"
    by (simp add: workspaceHasConfigFile_def firstWorkspaceFolder_def emit_def effects_since_def
        session_initial_def)
  have folders: "workspaceFolders ?e = Some [\<lparr> uri = ''/a/b'' \<rparr>, \<lparr> uri = ''/c/d'' \<rparr>]"
    and first: "ancestorDirsContainConfigFile ?e ''/a/b'' = Inr False"
    and nothing: "discoverWorkspaceConfigFiles ?e 1 = Inr []"
    by simp_all
  note gate = config_gate [of ?e session_initial]
  have unasked: "AncestorCall ''/c/d'' \<notin> set (effects_since session_initial
        (snd (workspaceHasConfigFile ?e session_initial)))"
    by (simp add: workspaceHasConfigFile_def firstWorkspaceFolder_def emit_def effects_since_def
        session_initial_def)
  from gate folders first nothing
  have answer: "fst (workspaceHasConfigFile ?e session_initial) \<noteq> Inr True"
    by auto
  from none skipped asked unasked answer show ?thesis
    by blast
qed

end
